theory Spec2Isabelle
  imports Main "HOL-Library.Sublist"
begin

section \<open>The plugin removal service of Meltano\<close>

text \<open>
  The development follows \<^verbatim>\<open>src/meltano/core/plugin_remove_service.py\<close>.
  The class \<^verbatim>\<open>PluginRemoveService\<close> drives four removal managers for each plugin of a
  batch and reports progress through two callbacks. The managers and the callbacks act on
  the outside world (database, \<^verbatim>\<open>meltano.yml\<close>, installation directory, lock files), which
  is kept abstract here: a value of type \<open>'w\<close> that their implementations transform. Every
  call that leaves the service is recorded in a trace, so that the order of the calls can
  be stated.
\<close>

subsection \<open>Data\<close>

text \<open>What a raised exception carries.\<close>

datatype fault = Fault string

text \<open>
  The four concrete manager classes, in the order in which \<^verbatim>\<open>remove_plugin\<close> builds them:
  \<^verbatim>\<open>DbRemoveManager\<close>, \<^verbatim>\<open>MeltanoYmlRemoveManager\<close>, \<^verbatim>\<open>InstallationRemoveManager\<close>,
  \<^verbatim>\<open>LockedDefinitionRemoveManager\<close>.
\<close>

datatype location = Db | MeltanoYml | Installation | LockedDefinition

text \<open>
  Modelled from the spec: the class \<^verbatim>\<open>PluginLocationRemoveManager\<close> and its four subclasses
  live in \<^verbatim>\<open>meltano.core.plugin_location_remove\<close>, which is not part of the sources at hand.
  A manager associates a plugin with the project it is removed from and records one
  outcome flag, unset until \<^verbatim>\<open>remove()\<close> has run.
\<close>

record ('p, 'j) manager =
  location :: location
  plugin :: 'p
  mproject :: 'j
  plugin_removed :: "bool option"

text \<open>The service object: \<^verbatim>\<open>self.project\<close> is its only attribute.\<close>

record 'j plugin_remove_service =
  project :: 'j

text \<open>The calls that leave the service, as they are recorded.\<close>

datatype ('p, 'j) event =
    Construct location 'p 'j
  | Remove location 'p "fault + bool"
  | PluginStatus 'p
  | ManagerStatus "('p, 'j) manager"

record ('p, 'j, 'w) state =
  world :: 'w
  trace :: "('p, 'j) event list"

text \<open>
  The behaviour of \<^verbatim>\<open>manager.remove()\<close>: it changes the world and either raises or
  leaves a value for \<^verbatim>\<open>plugin_removed\<close>. The two callbacks change the world and either
  raise or return \<^verbatim>\<open>None\<close>.
\<close>

type_synonym ('p, 'j, 'w) remove_impl = "('p, 'j) manager \<Rightarrow> 'w \<Rightarrow> (fault + bool) \<times> 'w"
type_synonym ('p, 'w) plugin_cb = "'p \<Rightarrow> 'w \<Rightarrow> (fault + unit) \<times> 'w"
type_synonym ('p, 'j, 'w) manager_cb = "('p, 'j) manager \<Rightarrow> 'w \<Rightarrow> (fault + unit) \<times> 'w"

subsection \<open>Calls into the environment\<close>

definition log :: "('p, 'j) event \<Rightarrow> ('p, 'j, 'w) state \<Rightarrow> ('p, 'j, 'w) state" where
  "log e s = s\<lparr>trace := trace s @ [e]\<rparr>"

text \<open>
  Modelled from the spec: \<^verbatim>\<open>noop\<close> of \<^verbatim>\<open>meltano.core.utils\<close>, the default of both callbacks,
  which is not part of the sources at hand. It does nothing and returns.
\<close>

definition noop :: "'a \<Rightarrow> 'w \<Rightarrow> (fault + unit) \<times> 'w" where
  "noop x w = (Inr (), w)"

text \<open>The constructor call \<^verbatim>\<open>XRemoveManager(plugin, self.project)\<close>.\<close>

definition construct ::
  "location \<Rightarrow> 'p \<Rightarrow> 'j \<Rightarrow> ('p, 'j, 'w) state \<Rightarrow> ('p, 'j) manager \<times> ('p, 'j, 'w) state" where
  "construct l p j s =
     (\<lparr>location = l, plugin = p, mproject = j, plugin_removed = None\<rparr>, log (Construct l p j) s)"

text \<open>The call \<^verbatim>\<open>manager.remove()\<close>: the manager is updated in place unless the call raises.\<close>

definition call_remove ::
  "('p, 'j, 'w) remove_impl \<Rightarrow> ('p, 'j) manager \<Rightarrow> ('p, 'j, 'w) state
     \<Rightarrow> (fault + ('p, 'j) manager) \<times> ('p, 'j, 'w) state" where
  "call_remove rm m s =
     (case rm m (world s) of
        (Inl f, w) \<Rightarrow> (Inl f, log (Remove (location m) (plugin m) (Inl f)) (s\<lparr>world := w\<rparr>))
      | (Inr b, w) \<Rightarrow> (Inr (m\<lparr>plugin_removed := Some b\<rparr>),
                      log (Remove (location m) (plugin m) (Inr b)) (s\<lparr>world := w\<rparr>)))"

text \<open>The call \<^verbatim>\<open>plugin_status_cb(plugin)\<close>.\<close>

definition call_plugin_status ::
  "('p, 'w) plugin_cb \<Rightarrow> 'p \<Rightarrow> ('p, 'j, 'w) state \<Rightarrow> (fault + unit) \<times> ('p, 'j, 'w) state" where
  "call_plugin_status plugin_status_cb p s =
     (case plugin_status_cb p (world s) of
        (r, w) \<Rightarrow> (r, (log (PluginStatus p) s)\<lparr>world := w\<rparr>))"

text \<open>The call \<^verbatim>\<open>removal_manager_status_cb(manager)\<close>.\<close>

definition call_manager_status ::
  "('p, 'j, 'w) manager_cb \<Rightarrow> ('p, 'j) manager \<Rightarrow> ('p, 'j, 'w) state
     \<Rightarrow> (fault + unit) \<times> ('p, 'j, 'w) state" where
  "call_manager_status removal_manager_status_cb m s =
     (case removal_manager_status_cb m (world s) of
        (r, w) \<Rightarrow> (r, (log (ManagerStatus m) s)\<lparr>world := w\<rparr>))"

subsection \<open>\<^verbatim>\<open>remove_plugin\<close>\<close>

text \<open>The loop \<^verbatim>\<open>for manager in remove_managers: manager.remove()\<close>.\<close>

fun remove_each ::
  "('p, 'j, 'w) remove_impl \<Rightarrow> ('p, 'j) manager list \<Rightarrow> ('p, 'j, 'w) state
     \<Rightarrow> (fault + ('p, 'j) manager list) \<times> ('p, 'j, 'w) state" where
  "remove_each rm [] s = (Inr [], s)"
| "remove_each rm (m # ms) s =
     (case call_remove rm m s of
        (Inl f, s1) \<Rightarrow> (Inl f, s1)
      | (Inr m', s1) \<Rightarrow>
          (case remove_each rm ms s1 of
             (Inl f, s2) \<Rightarrow> (Inl f, s2)
           | (Inr ms', s2) \<Rightarrow> (Inr (m' # ms'), s2)))"

definition remove_plugin ::
  "('p, 'j, 'w) remove_impl \<Rightarrow> 'j plugin_remove_service \<Rightarrow> 'p \<Rightarrow> ('p, 'j, 'w) state
     \<Rightarrow> (fault + ('p, 'j) manager list) \<times> ('p, 'j, 'w) state" where
  "remove_plugin rm self p s =
     (let (m1, s1) = construct Db p (project self) s;
          (m2, s2) = construct MeltanoYml p (project self) s1;
          (m3, s3) = construct Installation p (project self) s2;
          (m4, s4) = construct LockedDefinition p (project self) s3
      in remove_each rm [m1, m2, m3, m4] s4)"

subsection \<open>\<^verbatim>\<open>remove_plugins\<close>\<close>

text \<open>
  The inner loop over the managers that \<^verbatim>\<open>remove_plugin\<close> returned. The flag is read
  before the callback runs; an unset flag is falsy, as \<^verbatim>\<open>None\<close> is in Python.
\<close>

fun report_each ::
  "('p, 'j, 'w) manager_cb \<Rightarrow> ('p, 'j) manager list \<Rightarrow> bool \<Rightarrow> ('p, 'j, 'w) state
     \<Rightarrow> (fault + bool) \<times> ('p, 'j, 'w) state" where
  "report_each removal_manager_status_cb [] any_not_removed s = (Inr any_not_removed, s)"
| "report_each removal_manager_status_cb (m # ms) any_not_removed s =
     (let any_not_removed' = (plugin_removed m \<noteq> Some True \<or> any_not_removed) in
      case call_manager_status removal_manager_status_cb m s of
        (Inl f, s1) \<Rightarrow> (Inl f, s1)
      | (Inr u, s1) \<Rightarrow> report_each removal_manager_status_cb ms any_not_removed' s1)"

text \<open>The body of the outer loop, for one plugin; it returns the new \<^verbatim>\<open>removed_plugins\<close>.\<close>

definition process_plugin ::
  "('p, 'j, 'w) remove_impl \<Rightarrow> 'j plugin_remove_service \<Rightarrow> ('p, 'w) plugin_cb
     \<Rightarrow> ('p, 'j, 'w) manager_cb \<Rightarrow> 'p \<Rightarrow> int \<Rightarrow> ('p, 'j, 'w) state
     \<Rightarrow> (fault + int) \<times> ('p, 'j, 'w) state" where
  "process_plugin rm self plugin_status_cb removal_manager_status_cb p removed_plugins s =
     (case call_plugin_status plugin_status_cb p s of
        (Inl f, s1) \<Rightarrow> (Inl f, s1)
      | (Inr u, s1) \<Rightarrow>
          (case remove_plugin rm self p s1 of
             (Inl f, s2) \<Rightarrow> (Inl f, s2)
           | (Inr removal_managers, s2) \<Rightarrow>
               (case report_each removal_manager_status_cb removal_managers False s2 of
                  (Inl f, s3) \<Rightarrow> (Inl f, s3)
                | (Inr any_not_removed, s3) \<Rightarrow>
                    (Inr (if any_not_removed then removed_plugins - 1 else removed_plugins), s3))))"

text \<open>The outer loop \<^verbatim>\<open>for plugin in plugins\<close>.\<close>

fun plugins_loop ::
  "('p, 'j, 'w) remove_impl \<Rightarrow> 'j plugin_remove_service \<Rightarrow> ('p, 'w) plugin_cb
     \<Rightarrow> ('p, 'j, 'w) manager_cb \<Rightarrow> 'p list \<Rightarrow> int \<Rightarrow> ('p, 'j, 'w) state
     \<Rightarrow> (fault + int) \<times> ('p, 'j, 'w) state" where
  "plugins_loop rm self plugin_status_cb removal_manager_status_cb [] removed_plugins s =
     (Inr removed_plugins, s)"
| "plugins_loop rm self plugin_status_cb removal_manager_status_cb (p # ps) removed_plugins s =
     (case process_plugin rm self plugin_status_cb removal_manager_status_cb p removed_plugins s of
        (Inl f, s1) \<Rightarrow> (Inl f, s1)
      | (Inr removed_plugins', s1) \<Rightarrow>
          plugins_loop rm self plugin_status_cb removal_manager_status_cb ps removed_plugins' s1)"

definition remove_plugins ::
  "('p, 'j, 'w) remove_impl \<Rightarrow> 'j plugin_remove_service \<Rightarrow> 'p list \<Rightarrow> ('p, 'w) plugin_cb
     \<Rightarrow> ('p, 'j, 'w) manager_cb \<Rightarrow> ('p, 'j, 'w) state
     \<Rightarrow> (fault + int \<times> int) \<times> ('p, 'j, 'w) state" where
  "remove_plugins rm self plugins plugin_status_cb removal_manager_status_cb s =
     (let num_plugins = int (length plugins);
          removed_plugins = num_plugins
      in case plugins_loop rm self plugin_status_cb removal_manager_status_cb plugins
                removed_plugins s of
           (Inl f, s') \<Rightarrow> (Inl f, s')
         | (Inr removed_plugins', s') \<Rightarrow> (Inr (removed_plugins', num_plugins), s'))"


subsection \<open>Observing a trace\<close>

text \<open>The backend order.\<close>

definition locations :: "location list" where
  "locations = [Db, MeltanoYml, Installation, LockedDefinition]"

text \<open>The calls made between two states of one run.\<close>

definition new_events :: "('p, 'j, 'w) state \<Rightarrow> ('p, 'j, 'w) state \<Rightarrow> ('p, 'j) event list" where
  "new_events s s' = drop (length (trace s)) (trace s')"

text \<open>A manager after a \<^verbatim>\<open>remove()\<close> that returned with the flag \<open>b\<close>.\<close>

definition reported :: "location \<Rightarrow> 'p \<Rightarrow> 'j \<Rightarrow> bool \<Rightarrow> ('p, 'j) manager" where
  "reported l p j b = \<lparr>location = l, plugin = p, mproject = j, plugin_removed = Some b\<rparr>"

text \<open>
  The calls of one fault-free pass over a plugin whose four managers report \<open>bs\<close>: the plugin
  callback, four constructions, four removals, four manager callbacks.
\<close>

definition plugin_block :: "'j \<Rightarrow> 'p \<Rightarrow> bool list \<Rightarrow> ('p, 'j) event list" where
  "plugin_block j p bs =
     PluginStatus p # map (\<lambda>l. Construct l p j) locations
       @ map2 (\<lambda>l b. Remove l p (Inr b)) locations bs
       @ map2 (\<lambda>l b. ManagerStatus (reported l p j b)) locations bs"

definition partial_count :: "bool list list \<Rightarrow> nat" where
  "partial_count outs = length (filter (\<lambda>bs. \<not> list_all id bs) outs)"

text \<open>What the \<^verbatim>\<open>remove()\<close> calls that returned have reported, in call order.\<close>

fun remove_reports :: "('p, 'j) event list \<Rightarrow> ((location \<times> 'p) \<times> bool) list" where
  "remove_reports [] = []"
| "remove_reports (Remove l p (Inr b) # es) = ((l, p), b) # remove_reports es"
| "remove_reports (e # es) = remove_reports es"

fun chunks4 :: "'a list \<Rightarrow> 'a list list" where
  "chunks4 (a # b # c # d # xs) = [a, b, c, d] # chunks4 xs"
| "chunks4 xs = []"

text \<open>The reports grouped by plugin: four managers each.\<close>

definition reports_per_plugin :: "('p, 'j) event list \<Rightarrow> ((location \<times> 'p) \<times> bool) list list" where
  "reports_per_plugin es = chunks4 (remove_reports es)"

definition fully_removed :: "((location \<times> 'p) \<times> bool) list \<Rightarrow> bool" where
  "fully_removed rs = list_all snd rs"

text \<open>What the four managers of plugin \<open>p\<close> report when their flags are \<open>bs\<close>.\<close>

definition block_reports :: "'p \<Rightarrow> bool list \<Rightarrow> ((location \<times> 'p) \<times> bool) list" where
  "block_reports p bs = map2 (\<lambda>l b. ((l, p), b)) locations bs"

text \<open>The managers built, and every \<^verbatim>\<open>remove()\<close> call made, whether it returned or raised.\<close>

fun constructed :: "('p, 'j) event list \<Rightarrow> (location \<times> 'p \<times> 'j) list" where
  "constructed [] = []"
| "constructed (Construct l p j # es) = (l, p, j) # constructed es"
| "constructed (e # es) = constructed es"

fun remove_calls :: "('p, 'j) event list \<Rightarrow> (location \<times> 'p) list" where
  "remove_calls [] = []"
| "remove_calls (Remove l p r # es) = (l, p) # remove_calls es"
| "remove_calls (e # es) = remove_calls es"

text \<open>The callback invocations alone.\<close>

datatype 'p callback = PluginCb 'p | ManagerCb location 'p

fun callbacks :: "('p, 'j) event list \<Rightarrow> 'p callback list" where
  "callbacks [] = []"
| "callbacks (PluginStatus p # es) = PluginCb p # callbacks es"
| "callbacks (ManagerStatus m # es) = ManagerCb (location m) (plugin m) # callbacks es"
| "callbacks (e # es) = callbacks es"

text \<open>The calls that concern a manager after its construction: removal and status callback.\<close>

datatype 'p manager_call = RemoveOf location 'p | StatusOf location 'p

fun manager_calls :: "('p, 'j) event list \<Rightarrow> 'p manager_call list" where
  "manager_calls [] = []"
| "manager_calls (Remove l p r # es) = RemoveOf l p # manager_calls es"
| "manager_calls (ManagerStatus m # es) = StatusOf (location m) (plugin m) # manager_calls es"
| "manager_calls (e # es) = manager_calls es"

text \<open>The plugins handed to \<^verbatim>\<open>plugin_status_cb\<close>, in call order.\<close>

fun plugin_status_calls :: "('p, 'j) event list \<Rightarrow> 'p list" where
  "plugin_status_calls [] = []"
| "plugin_status_calls (PluginStatus p # es) = p # plugin_status_calls es"
| "plugin_status_calls (e # es) = plugin_status_calls es"

text \<open>
  Two properties a trace may have: the plugin callback runs before and after each plugin,
  that is twice for each; and every removal attempt is followed at once by the status
  callback of its manager.
\<close>

definition status_before_and_after :: "'p list \<Rightarrow> ('p, 'j) event list \<Rightarrow> bool" where
  "status_before_and_after ps es = (plugin_status_calls es = concat (map (\<lambda>p. [p, p]) ps))"

fun status_after_each_attempt :: "('p, 'j) event list \<Rightarrow> bool" where
  "status_after_each_attempt [] = True"
| "status_after_each_attempt (Remove l p r # es) =
     ((case es of
         ManagerStatus m # es' \<Rightarrow> location m = l \<and> plugin m = p
       | _ \<Rightarrow> False)
      \<and> status_after_each_attempt es)"
| "status_after_each_attempt (e # es) = status_after_each_attempt es"

subsection \<open>A small project to run the service on\<close>

text \<open>
  Plugins are numbered. The world lists the places where a plugin still has a footprint.
  A removal reports success when it finds and deletes the footprint; the manifest entry of
  plugin 0 cannot be edited, and the attempt raises.
\<close>

definition example_remove :: "(nat, string, (location \<times> nat) list) remove_impl" where
  "example_remove m w =
     (if plugin m = 0 \<and> location m = MeltanoYml then (Inl (Fault ''meltano.yml is read-only''), w)
      else if (location m, plugin m) \<in> set w
        then (Inr True, removeAll (location m, plugin m) w)
        else (Inr False, w))"

definition example_service :: "string plugin_remove_service" where
  "example_service = \<lparr>project = ''demo''\<rparr>"

definition installed :: "nat \<Rightarrow> (location \<times> nat) list" where
  "installed p = map (\<lambda>l. (l, p)) locations"

definition example_state ::
  "(location \<times> nat) list \<Rightarrow> (nat, string, (location \<times> nat) list) state" where
  "example_state w = \<lparr>world = w, trace = []\<rparr>"

text \<open>A callback that leaves a mark in the world.\<close>

definition example_cb :: "'a \<Rightarrow> (location \<times> nat) list \<Rightarrow> (fault + unit) \<times> (location \<times> nat) list" where
  "example_cb x w = (Inr (), w @ [(Db, 99)])"

section \<open>Properties\<close>

subsection \<open>What a run leaves in the trace\<close>

lemma trace_log: "trace (log e s) = trace s @ [e]"
  by (simp add: log_def)

lemma call_remove_Inr:
  assumes "call_remove rm m s = (Inr m', s')"
  shows "\<exists>b. m' = m\<lparr>plugin_removed := Some b\<rparr>
           \<and> trace s' = trace s @ [Remove (location m) (plugin m) (Inr b)]"
  using assms by (auto simp: call_remove_def log_def split: prod.splits sum.splits)

lemma call_remove_Inl:
  assumes "call_remove rm m s = (Inl f, s')"
  shows "trace s' = trace s @ [Remove (location m) (plugin m) (Inl f)]"
  using assms by (auto simp: call_remove_def log_def split: prod.splits sum.splits)

lemma remove_each_Inr:
  assumes "remove_each rm ms s = (Inr ms', s')"
  shows "\<exists>bs. length bs = length ms
           \<and> ms' = map2 (\<lambda>m b. m\<lparr>plugin_removed := Some b\<rparr>) ms bs
           \<and> trace s' = trace s @ map2 (\<lambda>m b. Remove (location m) (plugin m) (Inr b)) ms bs"
  using assms
proof (induction ms arbitrary: s ms')
  case Nil
  then show ?case by simp
next
  case (Cons m ms)
  from Cons.prems obtain m1 s1 ms1 where
    a: "call_remove rm m s = (Inr m1, s1)" and
    b: "remove_each rm ms s1 = (Inr ms1, s')" and
    c: "ms' = m1 # ms1"
    by (auto split: prod.splits sum.splits)
  from call_remove_Inr [OF a] obtain b0 where
    d: "m1 = m\<lparr>plugin_removed := Some b0\<rparr>"
       "trace s1 = trace s @ [Remove (location m) (plugin m) (Inr b0)]"
    by blast
  from Cons.IH [OF b] obtain bs where
    e: "length bs = length ms"
       "ms1 = map2 (\<lambda>m b. m\<lparr>plugin_removed := Some b\<rparr>) ms bs"
       "trace s' = trace s1 @ map2 (\<lambda>m b. Remove (location m) (plugin m) (Inr b)) ms bs"
    by blast
  show ?case
    by (rule exI [of _ "b0 # bs"]) (simp add: c d e)
qed

lemma remove_each_Inl:
  assumes "remove_each rm ms s = (Inl f, s')"
  shows "\<exists>n bs. n < length ms \<and> length bs = n
           \<and> trace s' = trace s
                @ map2 (\<lambda>m b. Remove (location m) (plugin m) (Inr b)) (take n ms) bs
                @ [Remove (location (ms ! n)) (plugin (ms ! n)) (Inl f)]"
  using assms
proof (induction ms arbitrary: s)
  case Nil
  then show ?case by simp
next
  case (Cons m ms)
  show ?case
  proof (cases "call_remove rm m s")
    case (Pair r s1)
    show ?thesis
    proof (cases r)
      case (Inl g)
      with Pair Cons.prems have "g = f" "s1 = s'" by auto
      with Pair Inl have "trace s' = trace s @ [Remove (location m) (plugin m) (Inl f)]"
        using call_remove_Inl by metis
      then show ?thesis
        by (intro exI [of _ 0] exI [of _ "[]"]) simp
    next
      case (Inr m1)
      with Pair have a: "call_remove rm m s = (Inr m1, s1)" by simp
      with Cons.prems have b: "remove_each rm ms s1 = (Inl f, s')"
        by (auto split: prod.splits sum.splits)
      from call_remove_Inr [OF a] obtain b0 where
        d: "trace s1 = trace s @ [Remove (location m) (plugin m) (Inr b0)]"
        by blast
      from Cons.IH [OF b] obtain n bs where
        e: "n < length ms" "length bs = n"
           "trace s' = trace s1
                @ map2 (\<lambda>m b. Remove (location m) (plugin m) (Inr b)) (take n ms) bs
                @ [Remove (location (ms ! n)) (plugin (ms ! n)) (Inl f)]"
        by blast
      show ?thesis
        by (intro exI [of _ "Suc n"] exI [of _ "b0 # bs"]) (simp add: d e)
    qed
  qed
qed

lemma report_each_Inr:
  assumes "report_each mcb ms a s = (Inr a', s')"
  shows "trace s' = trace s @ map ManagerStatus ms
           \<and> a' = (a \<or> (\<exists>m \<in> set ms. plugin_removed m \<noteq> Some True))"
  using assms
proof (induction ms arbitrary: s a)
  case Nil
  then show ?case by simp
next
  case (Cons m ms)
  from Cons.prems obtain u s1 where
    a: "call_manager_status mcb m s = (Inr u, s1)" and
    b: "report_each mcb ms (plugin_removed m \<noteq> Some True \<or> a) s1 = (Inr a', s')"
    by (auto split: prod.splits sum.splits)
  from a have c: "trace s1 = trace s @ [ManagerStatus m]"
    by (auto simp: call_manager_status_def log_def split: prod.splits)
  from Cons.IH [OF b] c show ?case by auto
qed

lemma remove_plugin_Inr:
  assumes "remove_plugin rm self p s = (Inr ms, s')"
  shows "\<exists>bs. length bs = 4
           \<and> ms = map2 (\<lambda>l b. reported l p (project self) b) locations bs
           \<and> trace s' = trace s @ map (\<lambda>l. Construct l p (project self)) locations
                @ map2 (\<lambda>l b. Remove l p (Inr b)) locations bs"
proof -
  let ?j = "project self"
  let ?ms = "map (\<lambda>l. \<lparr>location = l, plugin = p, mproject = ?j, plugin_removed = None\<rparr>) locations"
  let ?s4 = "s\<lparr>trace := trace s @ map (\<lambda>l. Construct l p ?j) locations\<rparr>"
  have eq: "remove_plugin rm self p s = remove_each rm ?ms ?s4"
    by (simp add: remove_plugin_def construct_def log_def locations_def)
  from assms eq have "remove_each rm ?ms ?s4 = (Inr ms, s')" by simp
  from remove_each_Inr [OF this] obtain bs where
    e: "length bs = length ?ms"
       "ms = map2 (\<lambda>m b. m\<lparr>plugin_removed := Some b\<rparr>) ?ms bs"
       "trace s' = trace ?s4 @ map2 (\<lambda>m b. Remove (location m) (plugin m) (Inr b)) ?ms bs"
    by blast
  from e(1) obtain b1 b2 b3 b4 where bs: "bs = [b1, b2, b3, b4]"
    by (auto simp: locations_def length_Suc_conv)
  show ?thesis
    by (rule exI [of _ bs]) (simp add: e bs locations_def reported_def)
qed


lemma call_plugin_status_Inr:
  assumes "call_plugin_status pcb p s = (Inr u, s')"
  shows "trace s' = trace s @ [PluginStatus p]"
  using assms by (auto simp: call_plugin_status_def log_def split: prod.splits)

lemma any_not_removed_reported:
  assumes "length bs = 4"
  shows "(\<exists>m \<in> set (map2 (\<lambda>l b. reported l p j b) locations bs). plugin_removed m \<noteq> Some True)
           = (\<not> list_all id bs)"
proof -
  from assms obtain b1 b2 b3 b4 where "bs = [b1, b2, b3, b4]"
    by (auto simp: length_Suc_conv numeral_eq_Suc)
  then show ?thesis by (simp add: locations_def reported_def)
qed

lemma process_plugin_Inr:
  assumes "process_plugin rm self pcb mcb p r s = (Inr r', s')"
  shows "\<exists>bs. length bs = 4
           \<and> trace s' = trace s @ plugin_block (project self) p bs
           \<and> r' = (if list_all id bs then r else r - 1)"
proof -
  from assms obtain u s1 ms s2 a where
    a: "call_plugin_status pcb p s = (Inr u, s1)" and
    b: "remove_plugin rm self p s1 = (Inr ms, s2)" and
    c: "report_each mcb ms False s2 = (Inr a, s')" and
    d: "r' = (if a then r - 1 else r)"
    by (auto simp: process_plugin_def split: prod.splits sum.splits)
  from remove_plugin_Inr [OF b] obtain bs where
    e: "length bs = 4"
       "ms = map2 (\<lambda>l b. reported l p (project self) b) locations bs"
       "trace s2 = trace s1 @ map (\<lambda>l. Construct l p (project self)) locations
                @ map2 (\<lambda>l b. Remove l p (Inr b)) locations bs"
    by blast
  from report_each_Inr [OF c] have
    f: "trace s' = trace s2 @ map ManagerStatus ms"
       "a = (\<exists>m \<in> set ms. plugin_removed m \<noteq> Some True)"
    by simp_all
  have g: "a = (\<not> list_all id bs)"
    unfolding f(2) e(2) by (rule any_not_removed_reported [OF e(1)])
  have h: "map ManagerStatus ms = map2 (\<lambda>l b. ManagerStatus (reported l p (project self) b)) locations bs"
    unfolding e(2) by (simp add: map_zip_map2 case_prod_unfold)
  have "trace s' = trace s @ plugin_block (project self) p bs"
    by (simp add: f(1) e(3) call_plugin_status_Inr [OF a] h plugin_block_def)
  with e(1) d g show ?thesis by auto
qed

lemma plugins_loop_Inr:
  assumes "plugins_loop rm self pcb mcb ps r s = (Inr r', s')"
  shows "\<exists>outs. length outs = length ps \<and> (\<forall>bs \<in> set outs. length bs = 4)
           \<and> trace s' = trace s @ concat (map2 (plugin_block (project self)) ps outs)
           \<and> r' = r - int (partial_count outs)"
  using assms
proof (induction ps arbitrary: r s)
  case Nil
  then show ?case by (simp add: partial_count_def)
next
  case (Cons p ps)
  from Cons.prems obtain r1 s1 where
    a: "process_plugin rm self pcb mcb p r s = (Inr r1, s1)" and
    b: "plugins_loop rm self pcb mcb ps r1 s1 = (Inr r', s')"
    by (auto split: prod.splits sum.splits)
  from process_plugin_Inr [OF a] obtain bs where
    c: "length bs = 4" "trace s1 = trace s @ plugin_block (project self) p bs"
       "r1 = (if list_all id bs then r else r - 1)"
    by blast
  from Cons.IH [OF b] obtain outs where
    d: "length outs = length ps" "\<forall>bs \<in> set outs. length bs = 4"
       "trace s' = trace s1 @ concat (map2 (plugin_block (project self)) ps outs)"
       "r' = r1 - int (partial_count outs)"
    by blast
  show ?case
    by (rule exI [of _ "bs # outs"]) (simp add: c d partial_count_def)
qed

lemma plugins_loop_append:
  "plugins_loop rm self pcb mcb (ps @ qs) r s =
     (case plugins_loop rm self pcb mcb ps r s of
        (Inl f, s1) \<Rightarrow> (Inl f, s1)
      | (Inr r1, s1) \<Rightarrow> plugins_loop rm self pcb mcb qs r1 s1)"
  by (induction ps arbitrary: r s) (auto split: prod.splits sum.splits)

lemma partial_count_le: "partial_count outs \<le> length outs"
  by (simp add: partial_count_def)

lemma remove_plugins_Inr:
  assumes "remove_plugins rm self ps pcb mcb s = (Inr (removed, attempted), s')"
  shows "attempted = int (length ps)
    \<and> (\<exists>outs. length outs = length ps \<and> (\<forall>bs \<in> set outs. length bs = 4)
           \<and> trace s' = trace s @ concat (map2 (plugin_block (project self)) ps outs)
           \<and> removed = int (length ps) - int (partial_count outs))"
proof -
  from assms have a: "attempted = int (length ps)"
    and b: "plugins_loop rm self pcb mcb ps (int (length ps)) s = (Inr removed, s')"
    by (auto simp: remove_plugins_def Let_def split: prod.splits sum.splits)
  from plugins_loop_Inr [OF b] a show ?thesis by blast
qed

subsection \<open>Runs of the example project\<close>

lemmas run_defs = remove_plugins_def process_plugin_def remove_plugin_def construct_def
  call_remove_def call_plugin_status_def call_manager_status_def log_def noop_def
  example_remove_def example_service_def example_state_def installed_def locations_def
  example_cb_def new_events_def Let_def

text \<open>
  Three plugins, all footprints present except the installed files of plugin 2: two of the
  three plugins are removed.
\<close>

lemma example_run_fst:
  "fst (remove_plugins example_remove example_service [1, 2, 3] noop noop
         (example_state (installed 1 @ [(Db, 2), (MeltanoYml, 2), (LockedDefinition, 2)]
            @ installed 3)))
     = Inr (2, 3)"
  by (simp add: run_defs)

subsection \<open>The returned counts\<close>

text \<open>
  C8: for the empty plugin sequence \<^verbatim>\<open>remove_plugins\<close> returns \<open>(0, 0)\<close>; the state is the
  one it started in, so no callback and no removal manager has been invoked.
\<close>

theorem remove_plugins_empty:
  "remove_plugins rm self [] plugin_status_cb removal_manager_status_cb s = (Inr (0, 0), s)"
  by (simp add: remove_plugins_def)

text \<open>
  C2: whenever \<^verbatim>\<open>remove_plugins\<close> returns normally, the returned pair
  \<open>(removed, attempted)\<close> satisfies \<open>0 \<le> removed \<le> attempted\<close>.
\<close>

theorem remove_plugins_bounds:
  assumes "remove_plugins rm self plugins plugin_status_cb removal_manager_status_cb s
             = (Inr (removed, attempted), s')"
  shows "0 \<le> removed \<and> removed \<le> attempted"
proof -
  from remove_plugins_Inr [OF assms] obtain outs where
    a: "attempted = int (length plugins)" "length outs = length plugins"
       "removed = int (length plugins) - int (partial_count outs)"
    by blast
  from partial_count_le [of outs] a(2) have "partial_count outs \<le> length plugins" by simp
  with a show ?thesis by simp
qed

theorem remove_plugins_bounds_witness:
  "fst (remove_plugins example_remove example_service [1, 2, 3] noop noop
         (example_state (installed 1 @ [(Db, 2), (MeltanoYml, 2), (LockedDefinition, 2)]
            @ installed 3)))
     = Inr (2, 3) \<and> (0::int) \<le> 2 \<and> (2::int) \<le> 3"
proof -
  let ?run = "remove_plugins example_remove example_service [1, 2, 3] noop noop
         (example_state (installed 1 @ [(Db, 2), (MeltanoYml, 2), (LockedDefinition, 2)]
            @ installed 3))"
  have f: "fst ?run = Inr (2, 3)" by (rule example_run_fst)
  then have "?run = (Inr (2, 3), snd ?run)" by (simp add: prod_eq_iff)
  from remove_plugins_bounds [OF this] f show ?thesis by simp
qed

subsection \<open>Reading a fault-free trace\<close>

lemma new_events_append:
  assumes "trace s' = trace s @ es"
  shows "new_events s s' = es"
  using assms by (simp add: new_events_def)

lemma remove_reports_append:
  "remove_reports (xs @ ys) = remove_reports xs @ remove_reports ys"
  by (induction xs rule: remove_reports.induct) simp_all

lemma callbacks_append: "callbacks (xs @ ys) = callbacks xs @ callbacks ys"
  by (induction xs rule: callbacks.induct) simp_all

lemma manager_calls_append: "manager_calls (xs @ ys) = manager_calls xs @ manager_calls ys"
  by (induction xs rule: manager_calls.induct) simp_all

lemma four_flags:
  assumes "length bs = 4"
  obtains b1 b2 b3 b4 where "bs = [b1, b2, b3, b4]"
  using assms by (auto simp: length_Suc_conv numeral_eq_Suc)

lemma remove_reports_block:
  assumes "length bs = 4"
  shows "remove_reports (plugin_block j p bs) = block_reports p bs"
proof -
  from assms obtain b1 b2 b3 b4 where "bs = [b1, b2, b3, b4]" by (rule four_flags)
  then show ?thesis by (simp add: plugin_block_def block_reports_def locations_def)
qed

lemma callbacks_block:
  assumes "length bs = 4"
  shows "callbacks (plugin_block j p bs) = PluginCb p # map (\<lambda>l. ManagerCb l p) locations"
proof -
  from assms obtain b1 b2 b3 b4 where "bs = [b1, b2, b3, b4]" by (rule four_flags)
  then show ?thesis by (simp add: plugin_block_def reported_def locations_def)
qed

lemma manager_calls_block:
  assumes "length bs = 4"
  shows "manager_calls (plugin_block j p bs)
           = map (\<lambda>l. RemoveOf l p) locations @ map (\<lambda>l. StatusOf l p) locations"
proof -
  from assms obtain b1 b2 b3 b4 where "bs = [b1, b2, b3, b4]" by (rule four_flags)
  then show ?thesis by (simp add: plugin_block_def reported_def locations_def)
qed

lemma block_reports_facts:
  assumes "length bs = 4"
  shows "fully_removed (block_reports p bs) = list_all id bs"
    and "map fst (block_reports p bs) = map (\<lambda>l. (l, p)) locations"
    and "map snd (block_reports p bs) = bs"
    and "chunks4 (block_reports p bs @ xs) = block_reports p bs # chunks4 xs"
proof -
  from assms obtain b1 b2 b3 b4 where bs: "bs = [b1, b2, b3, b4]" by (rule four_flags)
  show "fully_removed (block_reports p bs) = list_all id bs"
    by (simp add: bs block_reports_def fully_removed_def locations_def)
  show "map fst (block_reports p bs) = map (\<lambda>l. (l, p)) locations"
    by (simp add: bs block_reports_def locations_def)
  show "map snd (block_reports p bs) = bs"
    by (simp add: bs block_reports_def locations_def)
  show "chunks4 (block_reports p bs @ xs) = block_reports p bs # chunks4 xs"
    by (simp add: bs block_reports_def locations_def)
qed

lemma reports_per_plugin_blocks:
  assumes "length outs = length ps" and "\<forall>bs \<in> set outs. length bs = 4"
  shows "reports_per_plugin (concat (map2 (plugin_block j) ps outs)) = map2 block_reports ps outs"
  using assms
proof (induction outs ps rule: list_induct2)
  case Nil
  then show ?case by (simp add: reports_per_plugin_def)
next
  case (Cons bs outs p ps)
  then have a: "length bs = 4" and b: "\<forall>bs \<in> set outs. length bs = 4" by simp_all
  from Cons.IH [OF b] show ?case
    by (simp add: reports_per_plugin_def remove_reports_append remove_reports_block [OF a]
        block_reports_facts(4) [OF a])
qed

lemma callbacks_blocks:
  assumes "length outs = length ps" and "\<forall>bs \<in> set outs. length bs = 4"
  shows "callbacks (concat (map2 (plugin_block j) ps outs))
           = concat (map (\<lambda>p. PluginCb p # map (\<lambda>l. ManagerCb l p) locations) ps)"
  using assms
proof (induction outs ps rule: list_induct2)
  case Nil
  then show ?case by simp
next
  case (Cons bs outs p ps)
  then have a: "length bs = 4" and b: "\<forall>bs \<in> set outs. length bs = 4" by simp_all
  from Cons.IH [OF b] show ?case
    by (simp add: callbacks_append callbacks_block [OF a])
qed

lemma manager_calls_blocks:
  assumes "length outs = length ps" and "\<forall>bs \<in> set outs. length bs = 4"
  shows "manager_calls (concat (map2 (plugin_block j) ps outs))
           = concat (map (\<lambda>p. map (\<lambda>l. RemoveOf l p) locations
                               @ map (\<lambda>l. StatusOf l p) locations) ps)"
  using assms
proof (induction outs ps rule: list_induct2)
  case Nil
  then show ?case by simp
next
  case (Cons bs outs p ps)
  then have a: "length bs = 4" and b: "\<forall>bs \<in> set outs. length bs = 4" by simp_all
  from Cons.IH [OF b] show ?case
    by (simp add: manager_calls_append manager_calls_block [OF a])
qed

lemma blocks_reports_facts:
  assumes "length outs = length ps" and "\<forall>bs \<in> set outs. length bs = 4"
  shows "length (filter (\<lambda>rs. \<not> fully_removed rs) (map2 block_reports ps outs)) = partial_count outs"
    and "map (map fst) (map2 block_reports ps outs) = map (\<lambda>p. map (\<lambda>l. (l, p)) locations) ps"
    and "map (map snd) (map2 block_reports ps outs) = outs"
  using assms
proof (induction outs ps rule: list_induct2)
  case Nil
  {
    case 1 show ?case by (simp add: partial_count_def)
  next
    case 2 show ?case by simp
  next
    case 3 show ?case by simp
  }
next
  case (Cons bs outs p ps)
  {
    case 1
    then have a: "length bs = 4" and b: "\<forall>bs \<in> set outs. length bs = 4" by simp_all
    from Cons.IH(1) [OF b] show ?case
      using block_reports_facts(1) [OF a, of p] by (simp add: partial_count_def)
  next
    case 2
    then have a: "length bs = 4" and b: "\<forall>bs \<in> set outs. length bs = 4" by simp_all
    from Cons.IH(2) [OF b] show ?case
      by (simp add: block_reports_facts(2) [OF a])
  next
    case 3
    then have a: "length bs = 4" and b: "\<forall>bs \<in> set outs. length bs = 4" by simp_all
    from Cons.IH(3) [OF b] show ?case
      by (simp add: block_reports_facts(3) [OF a])
  }
qed

lemma filter_split_length:
  "length (filter P xs) = length xs - length (filter (\<lambda>x. \<not> P x) xs)"
  using sum_length_filter_compl [of P xs] by simp

text \<open>
  C1: when no call raises, \<^verbatim>\<open>remove_plugins\<close> returns \<open>(removed, attempted)\<close> where
  \<open>attempted\<close> is the length of the input, the reports of the run fall into one group of
  four managers per plugin, in input order, and \<open>removed\<close> is the number of groups in which
  all four managers report \<^verbatim>\<open>plugin_removed = True\<close>; equally, \<open>attempted\<close> minus the number
  of groups with a manager that reports \<^verbatim>\<open>False\<close>.
\<close>

theorem remove_plugins_counts:
  assumes "remove_plugins rm self plugins plugin_status_cb removal_manager_status_cb s
             = (Inr (removed, attempted), s')"
  shows "attempted = int (length plugins)
    \<and> map (map fst) (reports_per_plugin (new_events s s'))
        = map (\<lambda>p. map (\<lambda>l. (l, p)) locations) plugins
    \<and> removed = int (length (filter fully_removed (reports_per_plugin (new_events s s'))))
    \<and> removed = attempted
        - int (length (filter (\<lambda>rs. \<not> fully_removed rs) (reports_per_plugin (new_events s s'))))"
proof -
  from remove_plugins_Inr [OF assms] obtain outs where
    a: "attempted = int (length plugins)" and
    b: "length outs = length plugins" "\<forall>bs \<in> set outs. length bs = 4" and
    c: "trace s' = trace s @ concat (map2 (plugin_block (project self)) plugins outs)" and
    d: "removed = int (length plugins) - int (partial_count outs)"
    by blast
  let ?R = "map2 block_reports plugins outs"
  have e: "reports_per_plugin (new_events s s') = ?R"
    by (simp add: new_events_append [OF c] reports_per_plugin_blocks [OF b])
  have f: "length (filter (\<lambda>rs. \<not> fully_removed rs) ?R) = partial_count outs"
    by (rule blocks_reports_facts(1) [OF b])
  have g: "length ?R = length plugins" using b(1) by simp
  have h: "length (filter fully_removed ?R) = length plugins - partial_count outs"
    using filter_split_length [of fully_removed ?R] f g by simp
  have i: "partial_count outs \<le> length plugins"
    using partial_count_le [of outs] b(1) by simp
  show ?thesis
    unfolding e using a d f h i blocks_reports_facts(2) [OF b] by simp
qed

theorem remove_plugins_counts_witness:
  "fst (remove_plugins example_remove example_service [1, 2, 3] noop noop
         (example_state (installed 1 @ [(Db, 2), (MeltanoYml, 2), (LockedDefinition, 2)]
            @ installed 3)))
     = Inr (2, 3)
   \<and> (2::int) = int (length (filter fully_removed (reports_per_plugin
        (new_events
          (example_state (installed 1 @ [(Db, 2), (MeltanoYml, 2), (LockedDefinition, 2)]
            @ installed 3))
          (snd (remove_plugins example_remove example_service [1, 2, 3] noop noop
             (example_state (installed 1 @ [(Db, 2), (MeltanoYml, 2), (LockedDefinition, 2)]
                @ installed 3))))))))"
proof -
  let ?s = "example_state (installed 1 @ [(Db, 2), (MeltanoYml, 2), (LockedDefinition, 2)]
            @ installed 3)"
  let ?run = "remove_plugins example_remove example_service [1, 2, 3] noop noop ?s"
  have f: "fst ?run = Inr (2, 3)" by (rule example_run_fst)
  then have "?run = (Inr (2, 3), snd ?run)" by (simp add: prod_eq_iff)
  from remove_plugins_counts [OF this] f show ?thesis by simp
qed

end
